theory Spec2Isabelle
  imports Main "HOL-Library.Sublist" "HOL-Library.AList"
begin

section \<open>The engine contract of riptide-lib (riptide/engine/abstract.py)\<close>

text \<open>
  The module declares the abstract interface \<open>AbstractEngine\<close> of a container engine
  backend, one exception class, one module constant and two default methods,
  \<open>path_rm\<close> and \<open>path_copy\<close>, that work on the host's filesystem through the Python
  standard library. The default methods are embedded as state-passing functions over an
  explicit filesystem; an exception is a value \<open>Inl e\<close> of a sum type and is returned
  together with the filesystem as it is at that moment.
\<close>

subsection \<open>Module constant\<close>

text \<open>\<^verbatim>\<open>RIPTIDE_HOST_HOSTNAME = "host.riptide.internal"\<close> (line 12).\<close>

definition RIPTIDE_HOST_HOSTNAME :: string where
  "RIPTIDE_HOST_HOSTNAME = ''host.riptide.internal''"

subsection \<open>Exception classes\<close>

text \<open>
  The exception classes that the module defines (\<open>ExecError\<close>), raises
  (\<open>PermissionError\<close>) or can receive from the library calls it makes. A raised exception
  is represented by its class; messages are not modelled. \<open>ServiceNotRunningError\<close> and
  \<open>NotFoundError\<close> are named by the specification only: the module defines no such class.
\<close>

datatype exn =
    BaseException
  | Exception
  | OSError
  | PermissionError
  | FileNotFoundError
  | IsADirectoryError
  | NotADirectoryError
  | ShutilError
  | SameFileError
  | DistutilsError
  | DistutilsFileError
  | RuntimeError
  | RecursionError
  | ExecError
  | ServiceNotRunningError
  | NotFoundError

text \<open>
  The direct base class of each class. \<^verbatim>\<open>class ExecError(BaseException)\<close> is line 15 of
  the module; the other rows are Python's built-in hierarchy, \<open>shutil\<close>'s and
  \<open>distutils\<close>'s. The two classes that only the specification names are given the
  conventional base \<open>Exception\<close>.
\<close>

fun base :: "exn \<Rightarrow> exn option" where
  "base BaseException = None"
| "base Exception = Some BaseException"
| "base OSError = Some Exception"
| "base PermissionError = Some OSError"
| "base FileNotFoundError = Some OSError"
| "base IsADirectoryError = Some OSError"
| "base NotADirectoryError = Some OSError"
| "base ShutilError = Some OSError"
| "base SameFileError = Some ShutilError"
| "base DistutilsError = Some Exception"
| "base DistutilsFileError = Some DistutilsError"
| "base RuntimeError = Some Exception"
| "base RecursionError = Some RuntimeError"
| "base ExecError = Some BaseException"
| "base ServiceNotRunningError = Some Exception"
| "base NotFoundError = Some Exception"

text \<open>The distance of a class from the root of the hierarchy.\<close>

fun rank :: "exn \<Rightarrow> nat" where
  "rank BaseException = 0"
| "rank Exception = 1"
| "rank ExecError = 1"
| "rank OSError = 2"
| "rank DistutilsError = 2"
| "rank RuntimeError = 2"
| "rank ServiceNotRunningError = 2"
| "rank NotFoundError = 2"
| "rank PermissionError = 3"
| "rank FileNotFoundError = 3"
| "rank IsADirectoryError = 3"
| "rank NotADirectoryError = 3"
| "rank ShutilError = 3"
| "rank DistutilsFileError = 3"
| "rank RecursionError = 3"
| "rank SameFileError = 4"

lemma base_rank: "base c = Some b \<Longrightarrow> rank b < rank c"
  by (cases c) auto

text \<open>The method resolution order of a class: the class, then its bases up to the root.\<close>

function mro :: "exn \<Rightarrow> exn list" where
  "mro c = c # (case base c of None \<Rightarrow> [] | Some b \<Rightarrow> mro b)"
  by pat_completeness auto
termination
  by (relation "measure rank") (auto simp: base_rank)

definition issubclass :: "exn \<Rightarrow> exn \<Rightarrow> bool" where
  "issubclass c d = (d \<in> set (mro c))"

text \<open>
  \<^verbatim>\<open>try: body  except cls: handler\<close>: the handler runs when the body raises an instance
  of \<open>cls\<close> or of a subclass; any other exception propagates; a normal result is returned.
\<close>

definition try_except :: "exn + 'a \<Rightarrow> exn \<Rightarrow> (exn \<Rightarrow> exn + 'a) \<Rightarrow> exn + 'a" where
  "try_except body cls handler =
     (case body of
        Inl e \<Rightarrow> if issubclass e cls then handler e else Inl e
      | Inr v \<Rightarrow> Inr v)"

subsection \<open>The filesystem\<close>

text \<open>
  A path is the list of its components below the filesystem root, already canonical (no
  \<open>.\<close>, \<open>..\<close> or symbolic link). The filesystem is a tree of regular files and
  directories; a directory lists its entries in the order \<open>os.listdir\<close> returns them.
  Ownership and permission bits are not modelled: no call fails for lack of rights.
\<close>

type_synonym path = "string list"

datatype node = File string | Dir "(string \<times> node) list"

fun node_at :: "node \<Rightarrow> path \<Rightarrow> node option" where
  "node_at n [] = Some n"
| "node_at (File x) (c # cs) = None"
| "node_at (Dir es) (c # cs) =
     (case map_of es c of None \<Rightarrow> None | Some m \<Rightarrow> node_at m cs)"

text \<open>
  \<open>store p v fs\<close> puts the node \<open>v\<close> at path \<open>p\<close>, or deletes what is there when \<open>v\<close> is
  \<open>None\<close>. The parent of \<open>p\<close> has to be a directory, otherwise nothing changes.
\<close>

fun store :: "path \<Rightarrow> node option \<Rightarrow> node \<Rightarrow> node" where
  "store [] v n = (case v of None \<Rightarrow> n | Some m \<Rightarrow> m)"
| "store (c # cs) v (File x) = File x"
| "store (c # cs) v (Dir es) =
     (if cs = [] then
        (case v of None \<Rightarrow> Dir (AList.delete c es) | Some m \<Rightarrow> Dir (AList.update c m es))
      else
        (case map_of es c of
           None \<Rightarrow> Dir es
         | Some m \<Rightarrow> Dir (AList.update c (store cs v m) es)))"

text \<open>What \<open>os.stat\<close> shows of a path: nothing, a regular file and its content, or a directory.\<close>

datatype entry = RegularFile string | Directory

definition stat :: "node \<Rightarrow> path \<Rightarrow> entry option" where
  "stat fs p =
     (case node_at fs p of
        None \<Rightarrow> None
      | Some (File x) \<Rightarrow> Some (RegularFile x)
      | Some (Dir es) \<Rightarrow> Some Directory)"

definition isfile :: "node \<Rightarrow> path \<Rightarrow> bool" where
  "isfile fs p = (case node_at fs p of Some (File x) \<Rightarrow> True | _ \<Rightarrow> False)"

definition isdir :: "node \<Rightarrow> path \<Rightarrow> bool" where
  "isdir fs p = (case node_at fs p of Some (Dir es) \<Rightarrow> True | _ \<Rightarrow> False)"

subsection \<open>The library calls of the default methods\<close>

text \<open>
  Each call returns the exception it raises or its result, and the filesystem afterwards.
\<close>

type_synonym 'a outcome = "(exn + 'a) \<times> node"

text \<open>\<open>os.remove\<close>: unlinks a regular file.\<close>

definition os_remove :: "path \<Rightarrow> node \<Rightarrow> unit outcome" where
  "os_remove p fs =
     (case node_at fs p of
        None \<Rightarrow> (Inl FileNotFoundError, fs)
      | Some (Dir es) \<Rightarrow> (Inl IsADirectoryError, fs)
      | Some (File x) \<Rightarrow> (Inr (), store p None fs))"

text \<open>
  \<open>shutil.rmtree\<close> with its default \<open>ignore_errors=False\<close>: a missing path and a path
  that is no directory raise; a directory is removed with all it contains. The root of
  the filesystem is emptied, but cannot be removed itself.
\<close>

definition rmtree :: "path \<Rightarrow> node \<Rightarrow> unit outcome" where
  "rmtree p fs =
     (case node_at fs p of
        None \<Rightarrow> (Inl FileNotFoundError, fs)
      | Some (File x) \<Rightarrow> (Inl NotADirectoryError, fs)
      | Some (Dir es) \<Rightarrow> if p = [] then (Inl OSError, Dir []) else (Inr (), store p None fs))"

text \<open>\<open>os.path.basename\<close> and \<open>os.path.dirname\<close> on component lists.\<close>

definition basename :: "path \<Rightarrow> path" where
  "basename p = (if p = [] then [] else [last p])"

definition dirname :: "path \<Rightarrow> path" where
  "dirname p = butlast p"

text \<open>
  Opening \<open>dst\<close> for writing and writing \<open>x\<close>: the parent has to be a directory and
  \<open>dst\<close> itself must not be one; an existing regular file is truncated and rewritten.
\<close>

definition write_file :: "path \<Rightarrow> string \<Rightarrow> node \<Rightarrow> unit outcome" where
  "write_file dst x fs =
     (if dst = [] \<or> isdir fs dst then (Inl IsADirectoryError, fs)
      else (case node_at fs (dirname dst) of
              None \<Rightarrow> (Inl FileNotFoundError, fs)
            | Some (File y) \<Rightarrow> (Inl NotADirectoryError, fs)
            | Some (Dir es) \<Rightarrow> (Inr (), store dst (Some (File x)) fs)))"

text \<open>
  \<open>shutil.copy2\<close>: a destination that is a directory stands for the file of the source's
  name inside it; source and destination must not be the same file; then the content is
  copied (the metadata that \<open>copy2\<close> also copies is not modelled).
\<close>

definition copy2 :: "path \<Rightarrow> path \<Rightarrow> node \<Rightarrow> unit outcome" where
  "copy2 src dst fs =
     (let dst' = (if isdir fs dst then dst @ basename src else dst) in
      case node_at fs src of
        None \<Rightarrow> (Inl FileNotFoundError, fs)
      | Some (Dir es) \<Rightarrow> (Inl (if src = dst' then SameFileError else IsADirectoryError), fs)
      | Some (File x) \<Rightarrow> if src = dst' then (Inl SameFileError, fs) else write_file dst' x fs)"

text \<open>
  \<open>distutils.dir_util.mkpath\<close>: creates the directory and every missing ancestor; a
  regular file in the way raises \<open>DistutilsFileError\<close> before anything is created. The
  cache of created directories that \<open>distutils\<close> keeps per process is taken to be empty.
\<close>

fun chain :: "path \<Rightarrow> node" where
  "chain [] = Dir []"
| "chain (c # cs) = Dir [(c, chain cs)]"

fun mkdirs :: "path \<Rightarrow> node \<Rightarrow> node option" where
  "mkdirs p (File x) = None"
| "mkdirs [] (Dir es) = Some (Dir es)"
| "mkdirs (c # cs) (Dir es) =
     (case map_of es c of
        None \<Rightarrow> Some (Dir (AList.update c (chain cs) es))
      | Some m \<Rightarrow>
          (case mkdirs cs m of
             None \<Rightarrow> None
           | Some m' \<Rightarrow> Some (Dir (AList.update c m' es))))"

definition mkpath :: "path \<Rightarrow> node \<Rightarrow> unit outcome" where
  "mkpath p fs =
     (case mkdirs p fs of
        None \<Rightarrow> (Inl DistutilsFileError, fs)
      | Some fs' \<Rightarrow> (Inr (), fs'))"

text \<open>
  \<open>distutils.file_util.copy_file\<close>: the source has to be a regular file; a destination
  that is a directory stands for the file of the source's name inside it; an existing
  destination file is unlinked and written anew. Every failure is a
  \<open>DistutilsFileError\<close>.
\<close>

definition copy_file :: "path \<Rightarrow> path \<Rightarrow> node \<Rightarrow> unit outcome" where
  "copy_file src dst fs =
     (case node_at fs src of
        Some (File x) \<Rightarrow>
          (let dst' = (if isdir fs dst then dst @ basename src else dst) in
           case write_file dst' x fs of
             (Inl e, fs') \<Rightarrow> (Inl DistutilsFileError, fs')
           | (Inr u, fs') \<Rightarrow> (Inr (), fs'))
      | _ \<Rightarrow> (Inl DistutilsFileError, fs))"

text \<open>A \<open>for\<close> loop over names whose body may raise: the first exception ends the loop.\<close>

fun for_each :: "(string \<Rightarrow> node \<Rightarrow> unit outcome) \<Rightarrow> string list \<Rightarrow> node \<Rightarrow> unit outcome" where
  "for_each body [] fs = (Inr (), fs)"
| "for_each body (n # ns) fs =
     (case body n fs of
        (Inl e, fs') \<Rightarrow> (Inl e, fs')
      | (Inr u, fs') \<Rightarrow> for_each body ns fs')"

text \<open>\<^verbatim>\<open>n.startswith('.nfs')\<close>: the names \<open>copy_tree\<close> skips.\<close>

definition is_nfs :: "string \<Rightarrow> bool" where
  "is_nfs n = (take 4 n = ''.nfs'')"

text \<open>
  \<open>distutils.dir_util.copy_tree\<close>: the source has to be a directory; its names are
  listed, the destination directory is made, and each name is copied in turn, a
  directory by a recursive call and anything else by \<open>copy_file\<close>. Every call reads the
  filesystem as the calls before it left it, so the copy of a directory into itself
  keeps finding what it has just created: the first argument is the depth of recursion
  that the interpreter still allows, and a call beyond it raises \<open>RecursionError\<close>.
\<close>

fun copy_tree :: "nat \<Rightarrow> path \<Rightarrow> path \<Rightarrow> node \<Rightarrow> unit outcome" where
  "copy_tree 0 src dst fs = (Inl RecursionError, fs)"
| "copy_tree (Suc d) src dst fs =
     (case node_at fs src of
        Some (Dir es) \<Rightarrow>
          (case mkpath dst fs of
             (Inl e, fs1) \<Rightarrow> (Inl e, fs1)
           | (Inr u, fs1) \<Rightarrow>
               for_each
                 (\<lambda>n fs'.
                    if is_nfs n then (Inr (), fs')
                    else if isdir fs' (src @ [n]) then copy_tree d (src @ [n]) (dst @ [n]) fs'
                    else copy_file (src @ [n]) (dst @ [n]) fs')
                 (map fst es) fs1)
      | _ \<Rightarrow> (Inl DistutilsFileError, fs))"

subsection \<open>Projects and the path guard\<close>

text \<open>
  A project, as far as the engine contract reads it: its root directory, and the image of
  each of its services and commands.
\<close>

record project =
  folder :: path
  services :: "(string \<times> string) list"
  commands :: "(string \<times> string) list"

text \<open>
  Modelled from the spec: \<open>path_in_project\<close> of \<open>riptide.config.files\<close>, which the module
  imports and which is not among the sources. It is true iff the canonical path is equal
  to or a descendant of the project's root directory.
\<close>

definition path_in_project :: "path \<Rightarrow> project \<Rightarrow> bool" where
  "path_in_project path project = prefix (folder project) path"

subsection \<open>The default methods\<close>

text \<open>\<open>AbstractEngine.path_rm\<close> (lines 267 to 283).\<close>

definition path_rm :: "path \<Rightarrow> project \<Rightarrow> node \<Rightarrow> unit outcome" where
  "path_rm path project fs =
     (if \<not> path_in_project path project then (Inl PermissionError, fs)
      else if isfile fs path then os_remove path fs
      else rmtree path fs)"

text \<open>
  \<open>AbstractEngine.path_copy\<close> (lines 285 to 298). \<open>depth\<close> is the recursion depth left to
  \<open>copy_tree\<close> when the method is called.
\<close>

definition path_copy :: "nat \<Rightarrow> path \<Rightarrow> path \<Rightarrow> project \<Rightarrow> node \<Rightarrow> unit outcome" where
  "path_copy depth fromm to project fs =
     (if \<not> path_in_project to project then (Inl PermissionError, fs)
      else if isfile fs fromm then copy2 fromm to fs
      else copy_tree depth fromm to fs)"

subsection \<open>The abstract operations\<close>

text \<open>
  \<open>start_project\<close>, \<open>stop_project\<close>, \<open>service_status\<close>, \<open>cmd_in_service\<close> and \<open>pull_images\<close>
  are abstract methods of \<open>AbstractEngine\<close>: the module gives each a signature and a
  docstring, and a backend outside these sources implements them. What follows is a
  reference backend written from the specification's words, over an explicit engine
  state.
\<close>

text \<open>
  Modelled from the spec: the per-service state machine of section 4.1 (states \<open>Stopped\<close>,
  \<open>Starting\<close>, \<open>Running\<close>, \<open>Stopping\<close>), which no source file defines.
\<close>

datatype lifecycle = Stopped | Starting | Running | Stopping

text \<open>
  Modelled from the spec: the state a backend keeps, which no source file defines. A
  service is identified by its project's root directory and its name; \<open>containers\<close> lists
  the containers that exist, and \<open>images\<close> the images present locally.
\<close>

record engine_state =
  state_of :: "path \<times> string \<Rightarrow> lifecycle"
  containers :: "(path \<times> string) list"
  images :: "string list"

text \<open>
  Modelled from the spec: \<open>StartStopResultStep\<close> and \<open>MultiResultQueue\<close> of
  \<open>riptide.engine.results\<close>, imported by the module and not among the sources. A result
  names its target and is a progress step or a terminal success or failure; the queue is
  the list of results in the order in which they arrive.
\<close>

datatype status = Progress | Success | Failure

record operation_result =
  target :: string
  status :: status

text \<open>
  Modelled from the spec: what a backend's \<open>start_project\<close> does for one service (abstract
  in the module, lines 20 to 44). A service that is already \<open>Running\<close> gets its terminal
  success at once and nothing is created; otherwise the service passes through
  \<open>Starting\<close> to \<open>Running\<close>, with a container created unless one exists, or, when the
  backend fails (\<open>backend_ok\<close> is false for it), ends with a terminal failure.
\<close>

definition start_service ::
  "(string \<Rightarrow> bool) \<Rightarrow> project \<Rightarrow> string \<Rightarrow> engine_state \<Rightarrow> operation_result list \<times> engine_state" where
  "start_service backend_ok project s st =
     (let k = (folder project, s) in
      case state_of st k of
        Running \<Rightarrow> ([\<lparr>target = s, status = Success\<rparr>], st)
      | _ \<Rightarrow>
          if backend_ok s then
            ([\<lparr>target = s, status = Progress\<rparr>, \<lparr>target = s, status = Success\<rparr>],
             st\<lparr>state_of := (state_of st)(k := Running),
                containers := (if k \<in> set (containers st) then containers st
                               else containers st @ [k])\<rparr>)
          else
            ([\<lparr>target = s, status = Failure\<rparr>],
             st\<lparr>state_of := (state_of st)(k := Stopped),
                containers := removeAll k (containers st)\<rparr>))"

text \<open>
  Modelled from the spec: what a backend's \<open>stop_project\<close> does for one service (abstract
  in the module, lines 46 to 55), symmetric to starting: an already \<open>Stopped\<close> service
  gets its terminal success at once.
\<close>

definition stop_service ::
  "(string \<Rightarrow> bool) \<Rightarrow> project \<Rightarrow> string \<Rightarrow> engine_state \<Rightarrow> operation_result list \<times> engine_state" where
  "stop_service backend_ok project s st =
     (let k = (folder project, s) in
      case state_of st k of
        Stopped \<Rightarrow> ([\<lparr>target = s, status = Success\<rparr>], st)
      | _ \<Rightarrow>
          if backend_ok s then
            ([\<lparr>target = s, status = Progress\<rparr>, \<lparr>target = s, status = Success\<rparr>],
             st\<lparr>state_of := (state_of st)(k := Stopped),
                containers := removeAll k (containers st)\<rparr>)
          else
            ([\<lparr>target = s, status = Failure\<rparr>], st))"

text \<open>
  Modelled from the spec: the results of a multi-target operation, each target's results
  in order; the targets are taken one after the other.
\<close>

fun for_services ::
  "(string \<Rightarrow> engine_state \<Rightarrow> operation_result list \<times> engine_state) \<Rightarrow> string list \<Rightarrow>
   engine_state \<Rightarrow> operation_result list \<times> engine_state" where
  "for_services f [] st = ([], st)"
| "for_services f (s # ss) st =
     (case f s st of (q, st1) \<Rightarrow> (case for_services f ss st1 of (q', st2) \<Rightarrow> (q @ q', st2)))"

text \<open>
  Modelled from the spec: \<open>start_project\<close> of a backend (abstract in the module). A name
  that the project does not declare fails with \<open>NotFoundError\<close>. The flag
  \<open>unimportant_paths_unsynced\<close> only selects how paths are mounted.
\<close>

definition start_project ::
  "(string \<Rightarrow> bool) \<Rightarrow> project \<Rightarrow> string list \<Rightarrow> bool \<Rightarrow> engine_state \<Rightarrow>
   (exn + operation_result list) \<times> engine_state" where
  "start_project backend_ok project names unimportant_paths_unsynced st =
     (if \<not> set names \<subseteq> fst ` set (services project) then (Inl NotFoundError, st)
      else (case for_services (start_service backend_ok project) names st of
              (q, st') \<Rightarrow> (Inr q, st')))"

text \<open>Modelled from the spec: \<open>stop_project\<close> of a backend (abstract in the module).\<close>

definition stop_project ::
  "(string \<Rightarrow> bool) \<Rightarrow> project \<Rightarrow> string list \<Rightarrow> engine_state \<Rightarrow>
   (exn + operation_result list) \<times> engine_state" where
  "stop_project backend_ok project names st =
     (if \<not> set names \<subseteq> fst ` set (services project) then (Inl NotFoundError, st)
      else (case for_services (stop_service backend_ok project) names st of
              (q, st') \<Rightarrow> (Inr q, st')))"



text \<open>
  \<open>pull_images\<close> of a backend (abstract in the module, lines 240 to 265) is modelled with
  the layout of the status text that the declaration's docstring shows. \<open>repository\<close>
  answers for an image with the status reports of its transfer, or with \<open>None\<close> when the
  remote repository does not have it. For each image reference the callback gets a header
  line, then either the reports, each after a line reset, or the warning; a final line
  closes the output. The callback \<open>update_func\<close> acts on a state of the caller.
\<close>

text \<open>
  Modelled from the spec: the images that \<open>pull_images\<close> goes through, one for every
  service and then one for every command of the project, each with its kind and name.
\<close>

definition image_refs :: "project \<Rightarrow> (string \<times> string \<times> string) list" where
  "image_refs project =
     map (\<lambda>(n, i). (''service'', n, i)) (services project)
     @ map (\<lambda>(n, i). (''command'', n, i)) (commands project)"

text \<open>
  Modelled from the spec: the line that opens the report on one image, as the docstring
  of \<open>pull_images\<close> lays it out (\<^verbatim>\<open>[service/service1] Pulling 'image/name':\<close>).
\<close>

definition pull_header :: "string \<Rightarrow> string \<Rightarrow> string \<Rightarrow> string" where
  "pull_header kind name img =
     ''['' @ kind @ ''/'' @ name @ ''] Pulling '' @ [CHR 0x27] @ img @ [CHR 0x27] @ '':'' @ [CHR 0x0A]"

text \<open>
  Modelled from the spec: the warning line for an image that the remote repository does
  not have, as the docstring of \<open>pull_images\<close> words it.
\<close>

definition image_not_found :: string where
  "image_not_found = ''    Warning: Image not found in repository.'' @ [CHR 0x0A]"

text \<open>
  Modelled from the spec: the loop of \<open>pull_images\<close> over the image references. It returns
  the lines for the callback and the images pulled; a missing image adds its warning and
  the loop goes on with the next reference.
\<close>

fun pull_each ::
  "(string \<Rightarrow> string list option) \<Rightarrow> string \<Rightarrow> (string \<times> string \<times> string) list \<Rightarrow>
   string list \<times> string list" where
  "pull_each repository line_reset [] = ([], [])"
| "pull_each repository line_reset ((kind, name, img) # rest) =
     (case pull_each repository line_reset rest of
        (ms, ims) \<Rightarrow>
          (case repository img of
             None \<Rightarrow> (pull_header kind name img # image_not_found # ms, ims)
           | Some reports \<Rightarrow>
               (pull_header kind name img # map (\<lambda>t. line_reset @ ''    '' @ t) reports @ ms,
                img # ims)))"

text \<open>
  Modelled from the spec: all the text that \<open>pull_images\<close> sends to the callback, ending
  with the closing line of the docstring's layout.
\<close>

definition pull_messages ::
  "(string \<Rightarrow> string list option) \<Rightarrow> string \<Rightarrow> project \<Rightarrow> string list" where
  "pull_messages repository line_reset project =
     fst (pull_each repository line_reset (image_refs project)) @ [[CHR 0x0A] @ ''Done.'' @ [CHR 0x0A]]"

text \<open>
  Modelled from the spec: \<open>pull_images\<close> itself. It returns normally, with the pulled
  images added to the local ones and the callback applied to each line in turn.
\<close>

definition pull_images ::
  "(string \<Rightarrow> string list option) \<Rightarrow> engine_state \<Rightarrow> project \<Rightarrow> string \<Rightarrow> (string \<Rightarrow> 'u \<Rightarrow> 'u) \<Rightarrow> 'u \<Rightarrow>
   (exn + unit) \<times> engine_state \<times> 'u" where
  "pull_images repository st project line_reset update_func u =
     (Inr (),
      st\<lparr>images := images st @ snd (pull_each repository line_reset (image_refs project))\<rparr>,
      fold update_func (pull_messages repository line_reset project) u)"

subsection \<open>Shape of a directory tree\<close>

text \<open>
  Three functions on trees that the statements about \<open>copy_tree\<close> need: whether every
  directory lists each name once, as a real directory does; the number of nested
  \<open>copy_tree\<close> calls that the copy of a tree takes; and the tree without the entries whose
  names start with \<open>.nfs\<close>, which \<open>copy_tree\<close> skips.
\<close>

fun names_distinct :: "node \<Rightarrow> bool" where
  "names_distinct (File x) = True"
| "names_distinct (Dir es) = (distinct (map fst es) \<and> list_all (\<lambda>(n, t). names_distinct t) es)"




subsection \<open>A sample project and filesystem\<close>

text \<open>
  A project rooted at \<open>/home/dev/proj\<close> on a small filesystem, used to run the methods
  on concrete inputs.
\<close>

definition demo_fs :: node where
  "demo_fs =
     Dir [(''home'', Dir [(''dev'', Dir [(''proj'',
            Dir [(''riptide.yml'', File ''project: demo''),
                 (''src'', Dir [(''index.html'', File ''hello src'')]),
                 (''backup'', Dir [(''index.html'', File ''hello old''), (''notes.txt'', File ''keep me'')])])])]),
          (''etc'', Dir [(''hosts'', File ''127.0.0.1 localhost'')])]"

definition demo_project :: project where
  "demo_project =
     \<lparr>folder = [''home'', ''dev'', ''proj''],
      services = [(''web'', ''nginx''), (''db'', ''mysql'')],
      commands = [(''npm'', ''node'')]\<rparr>"

text \<open>
  An engine state in which the sample project's service \<open>web\<close> is running and \<open>db\<close> is
  not, and a remote repository that has the images \<open>nginx\<close> and \<open>node\<close> but not \<open>mysql\<close>.
\<close>

definition demo_engine :: engine_state where
  "demo_engine =
     \<lparr>state_of = (\<lambda>k. Stopped)(([''home'', ''dev'', ''proj''], ''web'') := Running),
      containers = [([''home'', ''dev'', ''proj''], ''web'')],
      images = []\<rparr>"

definition demo_repository :: "string \<Rightarrow> string list option" where
  "demo_repository img =
     (if img = ''nginx'' then Some [''Downloading'', ''Pull complete'']
      else if img = ''node'' then Some [''Image is up to date'']
      else None)"

section \<open>Facts about the filesystem and the library calls\<close>

subsection \<open>Lookup, \<open>store\<close> and \<open>mkdirs\<close>\<close>

lemma stat_Nil: "stat fs [] = (case fs of File x \<Rightarrow> Some (RegularFile x) | Dir es \<Rightarrow> Some Directory)"
  by (simp add: stat_def)

lemma stat_File_Cons: "stat (File x) (c # cs) = None"
  by (simp add: stat_def)

lemma stat_Dir_Cons:
  "stat (Dir es) (c # cs) = (case map_of es c of None \<Rightarrow> None | Some m \<Rightarrow> stat m cs)"
  by (simp add: stat_def split: option.splits)

lemmas stat_simps = stat_Nil stat_File_Cons stat_Dir_Cons

lemma node_at_None_append: "node_at fs p = None \<Longrightarrow> node_at fs (p @ r) = None"
proof (induction p arbitrary: fs)
  case Nil
  then show ?case by simp
next
  case (Cons c cs)
  then show ?case by (cases fs) (auto split: option.splits)
qed

lemma node_at_File_append: "node_at fs p = Some (File x) \<Longrightarrow> r \<noteq> [] \<Longrightarrow> node_at fs (p @ r) = None"
proof (induction p arbitrary: fs)
  case Nil
  then show ?case by (cases r) auto
next
  case (Cons c cs)
  then show ?case by (cases fs) (auto split: option.splits)
qed


lemma node_at_store_other:
  "\<not> prefix p q \<Longrightarrow> \<not> prefix q p \<Longrightarrow> node_at (store p v fs) q = node_at fs q"
proof (induction p arbitrary: fs q)
  case Nil
  then show ?case by simp
next
  case (Cons c cs)
  show ?case
  proof (cases q)
    case Nil
    with Cons.prems show ?thesis by simp
  next
    case (Cons c' qs)
    show ?thesis
    proof (cases fs)
      case (File x)
      then show ?thesis by simp
    next
      case (Dir es)
      show ?thesis
      proof (cases "c' = c")
        case True
        with Cons.prems \<open>q = c' # qs\<close> have a: "\<not> prefix cs qs" "\<not> prefix qs cs" by auto
        then have "cs \<noteq> []" by auto
        with Dir True \<open>q = c' # qs\<close> Cons.IH [OF a] show ?thesis
          by (simp add: update_conv' split: option.splits)
      next
        case False
        with Dir \<open>q = c' # qs\<close> show ?thesis
          by (simp add: update_conv' delete_conv' split: option.splits)
      qed
    qed
  qed
qed

lemma node_at_store_under:
  "isdir fs (butlast p) \<Longrightarrow> p \<noteq> [] \<Longrightarrow>
   node_at (store p v fs) (p @ r) = (case v of None \<Rightarrow> None | Some m \<Rightarrow> node_at m r)"
proof (induction p arbitrary: fs)
  case Nil
  then show ?case by simp
next
  case (Cons c cs)
  show ?case
  proof (cases fs)
    case (File x)
    with Cons.prems show ?thesis by (simp add: isdir_def split: if_splits)
  next
    case (Dir es)
    show ?thesis
    proof (cases "cs = []")
      case True
      with Dir show ?thesis by (simp add: update_conv' delete_conv' split: option.splits)
    next
      case False
      with Cons.prems Dir obtain m where m: "map_of es c = Some m" "isdir m (butlast cs)"
        by (auto simp: isdir_def split: option.splits)
      with Dir False Cons.IH [OF m(2) False] show ?thesis
        by (simp add: update_conv')
    qed
  qed
qed

lemma stat_store_above:
  "strict_prefix q p \<Longrightarrow> stat (store p v fs) q = stat fs q"
proof (induction p arbitrary: fs q)
  case Nil
  then show ?case by simp
next
  case (Cons c cs)
  show ?case
  proof (cases fs)
    case (File x)
    then show ?thesis by simp
  next
    case (Dir es)
    show ?thesis
    proof (cases q)
      case Nil
      with Dir show ?thesis by (simp add: stat_simps split: option.splits)
    next
      case (Cons c' qs)
      with Cons.prems have eq: "c' = c" and sp: "strict_prefix qs cs" by auto
      then have "cs \<noteq> []" by auto
      with Dir Cons eq Cons.IH [OF sp] show ?thesis
        by (simp add: stat_simps update_conv' split: option.splits)
    qed
  qed
qed

lemma stat_store:
  assumes "isdir fs (butlast p)" and "p \<noteq> []"
  shows "stat (store p v fs) q =
           (if prefix p q then (case v of None \<Rightarrow> None | Some m \<Rightarrow> stat m (drop (length p) q))
            else stat fs q)"
proof (cases "prefix p q")
  case True
  then obtain r where "q = p @ r" by (auto elim: prefixE)
  with assms show ?thesis
    by (simp add: stat_def node_at_store_under split: option.splits)
next
  case False
  show ?thesis
  proof (cases "prefix q p")
    case True
    with False have "strict_prefix q p" by (auto simp: strict_prefix_def)
    with False show ?thesis by (simp add: stat_store_above)
  next
    case nq: False
    with False show ?thesis by (simp add: stat_def node_at_store_other)
  qed
qed


lemma stat_mkdirs_existing:
  "mkdirs p fs = Some fs' \<Longrightarrow> stat fs q \<noteq> None \<Longrightarrow> stat fs' q = stat fs q"
proof (induction p arbitrary: fs fs' q)
  case Nil
  then show ?case by (cases fs) auto
next
  case (Cons c cs)
  from Cons.prems obtain es where Dir: "fs = Dir es" by (cases fs) auto
  show ?case
  proof (cases q)
    case Nil
    with Cons.prems Dir show ?thesis by (auto simp: stat_simps split: option.splits)
  next
    case q: (Cons c' qs)
    show ?thesis
    proof (cases "map_of es c")
      case None
      with Cons.prems Dir have fs': "fs' = Dir (AList.update c (chain cs) es)" by simp
      from None Cons.prems(2) Dir q have "c' \<noteq> c" by (auto simp: stat_simps)
      with fs' Dir q show ?thesis by (simp add: stat_simps update_conv')
    next
      case (Some m)
      with Cons.prems Dir obtain m' where m': "mkdirs cs m = Some m'" "fs' = Dir (AList.update c m' es)"
        by (auto split: option.splits)
      show ?thesis
      proof (cases "c' = c")
        case True
        with Cons.prems Dir q Some have "stat m qs \<noteq> None" by (simp add: stat_simps)
        from Cons.IH [OF m'(1) this] True Dir q Some m'(2) show ?thesis
          by (simp add: stat_simps update_conv')
      next
        case False
        with Dir q m'(2) show ?thesis by (simp add: stat_simps update_conv')
      qed
    qed
  qed
qed

subsection \<open>Paths\<close>





subsection \<open>Trees\<close>



lemma names_distinct_child: "names_distinct (Dir es) \<Longrightarrow> (n, t) \<in> set es \<Longrightarrow> names_distinct t"
  by (auto simp: list_all_iff)

lemma names_distinct_node_at:
  "names_distinct fs \<Longrightarrow> node_at fs p = Some t \<Longrightarrow> names_distinct t"
proof (induction p arbitrary: fs)
  case Nil
  then show ?case by simp
next
  case (Cons c cs)
  then obtain es m where "fs = Dir es" "map_of es c = Some m" "node_at m cs = Some t"
    by (cases fs) (auto split: option.splits)
  moreover from this have "(c, m) \<in> set es" by (auto dest: map_of_SomeD)
  ultimately have "names_distinct m" using Cons.prems(1) names_distinct_child by blast
  with Cons.IH \<open>node_at m cs = Some t\<close> show ?case by blast
qed


subsection \<open>A tree put at a path\<close>




subsection \<open>\<open>copy_tree\<close> to a destination that does not exist\<close>





subsection \<open>What the copy calls leave alone\<close>

lemma parent_isdir: "node_at fs p = Some t \<Longrightarrow> p \<noteq> [] \<Longrightarrow> isdir fs (butlast p)"
proof (induction p arbitrary: fs)
  case Nil
  then show ?case by simp
next
  case (Cons c cs)
  then obtain es m where fs: "fs = Dir es" "map_of es c = Some m" "node_at m cs = Some t"
    by (cases fs) (auto split: option.splits)
  show ?case
  proof (cases "cs = []")
    case True
    with fs show ?thesis by (simp add: isdir_def)
  next
    case False
    with Cons.IH [OF fs(3)] have "isdir m (butlast cs)" by simp
    with fs False show ?thesis by (simp add: isdir_def)
  qed
qed

lemma stat_None_below: "node_at fs p = None \<Longrightarrow> prefix p q \<Longrightarrow> stat fs q = None"
  by (auto simp: stat_def node_at_None_append elim!: prefixE)

lemma stat_File_below:
  "node_at fs p = Some (File x) \<Longrightarrow> prefix p q \<Longrightarrow> q \<noteq> p \<Longrightarrow> stat fs q = None"
proof -
  assume a: "node_at fs p = Some (File x)" "prefix p q" "q \<noteq> p"
  then obtain r where "q = p @ r" "r \<noteq> []" by (auto elim!: prefixE)
  with a(1) show ?thesis by (simp add: stat_def node_at_File_append)
qed

lemma stat_store_outside:
  "\<not> prefix p q \<Longrightarrow> stat (store p v fs) q = stat fs q"
proof (cases "prefix q p")
  case True
  assume "\<not> prefix p q"
  with True have "strict_prefix q p" by (auto simp: strict_prefix_def)
  then show ?thesis by (rule stat_store_above)
next
  case False
  assume "\<not> prefix p q"
  with False show ?thesis by (simp add: stat_def node_at_store_other)
qed

lemma stat_write_file_outside:
  "\<not> prefix p q \<Longrightarrow> stat (snd (write_file p x fs)) q = stat fs q"
  by (simp add: write_file_def stat_store_outside split: option.splits node.splits)

lemma stat_copy_file_outside:
  "\<not> prefix dst q \<Longrightarrow> stat (snd (copy_file src dst fs)) q = stat fs q"
proof -
  assume a: "\<not> prefix dst q"
  then have b: "\<not> prefix (dst @ basename src) q" by (auto dest: append_prefixD)
  show ?thesis
  proof (cases "node_at fs src")
    case None
    then show ?thesis by (simp add: copy_file_def)
  next
    case (Some t)
    show ?thesis
    proof (cases t)
      case (Dir es)
      with Some show ?thesis by (simp add: copy_file_def)
    next
      case (File x)
      define dst' where "dst' = (if isdir fs dst then dst @ basename src else dst)"
      from a b have "\<not> prefix dst' q" by (simp add: dst'_def)
      then have "stat (snd (write_file dst' x fs)) q = stat fs q"
        by (rule stat_write_file_outside)
      moreover have "snd (copy_file src dst fs) = snd (write_file dst' x fs)"
        using Some File by (simp add: copy_file_def Let_def dst'_def split: prod.splits sum.splits)
      ultimately show ?thesis by simp
    qed
  qed
qed

lemma stat_mkpath_existing:
  "stat fs q \<noteq> None \<Longrightarrow> stat (snd (mkpath p fs)) q = stat fs q"
  by (simp add: mkpath_def stat_mkdirs_existing split: option.splits)

lemma for_each_keeps:
  assumes "\<And>n s. stat s q = e \<Longrightarrow> stat (snd (body n s)) q = e"
  shows "stat s q = e \<Longrightarrow> stat (snd (for_each body ns s)) q = e"
proof (induction ns arbitrary: s)
  case Nil
  then show ?case by simp
next
  case (Cons n ns)
  from assms [OF Cons.prems, of n] have a: "stat (snd (body n s)) q = e" .
  show ?case
  proof (cases "body n s")
    case (Pair r s1)
    with a have s1: "stat s1 q = e" by simp
    show ?thesis
    proof (cases r)
      case (Inl x)
      with Pair s1 show ?thesis by simp
    next
      case (Inr u)
      with Pair Cons.IH [OF s1] show ?thesis by simp
    qed
  qed
qed

lemma copy_tree_keeps:
  "stat fs q = Some e \<Longrightarrow> \<not> prefix dst q \<Longrightarrow> stat (snd (copy_tree d src dst fs)) q = Some e"
proof (induction d arbitrary: src dst fs)
  case 0
  then show ?case by simp
next
  case (Suc d)
  show ?case
  proof (cases "node_at fs src")
    case None
    with Suc.prems show ?thesis by simp
  next
    case (Some t)
    show ?thesis
    proof (cases t)
      case (File x)
      with Some Suc.prems show ?thesis by simp
    next
      case (Dir es)
      from Suc.prems(1) have mk: "stat (snd (mkpath dst fs)) q = Some e"
        by (simp add: stat_mkpath_existing)
      show ?thesis
      proof (cases "mkpath dst fs")
        case (Pair r fs1)
        with mk have fs1: "stat fs1 q = Some e" by simp
        show ?thesis
        proof (cases r)
          case (Inl x)
          with Pair Some Dir fs1 show ?thesis by simp
        next
          case (Inr u)
          have "stat (snd (for_each
                 (\<lambda>n fs'.
                    if is_nfs n then (Inr (), fs')
                    else if isdir fs' (src @ [n]) then copy_tree d (src @ [n]) (dst @ [n]) fs'
                    else copy_file (src @ [n]) (dst @ [n]) fs')
                 (map fst es) fs1)) q = Some e"
          proof (rule for_each_keeps [OF _ fs1])
            fix n s
            assume s: "stat s q = Some e"
            from Suc.prems(2) have np: "\<not> prefix (dst @ [n]) q" by (auto dest: append_prefixD)
            from s np have "stat (snd (copy_tree d (src @ [n]) (dst @ [n]) s)) q = Some e"
              by (rule Suc.IH)
            moreover from np s have "stat (snd (copy_file (src @ [n]) (dst @ [n]) s)) q = Some e"
              by (simp add: stat_copy_file_outside)
            ultimately show "stat (snd (if is_nfs n then (Inr (), s)
                    else if isdir s (src @ [n]) then copy_tree d (src @ [n]) (dst @ [n]) s
                    else copy_file (src @ [n]) (dst @ [n]) s)) q = Some e"
              using s by simp
          qed
          with Pair Some Dir Inr show ?thesis by simp
        qed
      qed
    qed
  qed
qed

lemma copy2_plain:
  assumes "node_at fs src = Some (File x)" and "src \<noteq> dst" and "dst \<noteq> []"
    and "isdir fs (dirname dst)" and "\<not> isdir fs dst"
  shows "copy2 src dst fs = (Inr (), store dst (Some (File x)) fs)"
proof -
  from assms(4) obtain es where "node_at fs (dirname dst) = Some (Dir es)"
    by (auto simp: isdir_def split: option.splits node.splits)
  with assms(3,5) have "write_file dst x fs = (Inr (), store dst (Some (File x)) fs)"
    by (simp add: write_file_def)
  with assms(1,2,5) show ?thesis by (simp add: copy2_def)
qed

lemma copy2_keeps:
  "\<not> prefix dst q \<Longrightarrow> stat (snd (copy2 src dst fs)) q = stat fs q"
proof -
  assume a: "\<not> prefix dst q"
  then have b: "\<not> prefix (dst @ basename src) q" by (auto dest: append_prefixD)
  define dst' where "dst' = (if isdir fs dst then dst @ basename src else dst)"
  from a b have "\<not> prefix dst' q" by (simp add: dst'_def)
  then have "\<And>x. stat (snd (write_file dst' x fs)) q = stat fs q"
    by (rule stat_write_file_outside)
  then show ?thesis
    unfolding copy2_def Let_def dst'_def [symmetric]
    by (simp split: option.splits node.splits)
qed

subsection \<open>The default methods inside the project\<close>



lemma path_copy_file:
  assumes "prefix (folder project) to" and "node_at fs fromm = Some (File x)" and "fromm \<noteq> to"
    and "to \<noteq> []" and "isdir fs (dirname to)" and "\<not> isdir fs to"
  shows "path_copy depth fromm to project fs = (Inr (), store to (Some (File x)) fs)"
    and "stat (store to (Some (File x)) fs) q = (if q = to then Some (RegularFile x) else stat fs q)"
proof -
  from assms show "path_copy depth fromm to project fs = (Inr (), store to (Some (File x)) fs)"
    by (simp add: path_copy_def path_in_project_def isfile_def copy2_plain)
  from assms(5,4) have st: "stat (store to (Some (File x)) fs) q =
      (if prefix to q then stat (File x) (drop (length to) q) else stat fs q)"
    by (simp add: stat_store dirname_def)
  show "stat (store to (Some (File x)) fs) q = (if q = to then Some (RegularFile x) else stat fs q)"
  proof (cases "prefix to q")
    case False
    with st show ?thesis by auto
  next
    case True
    then obtain r where r: "q = to @ r" by (auto elim: prefixE)
    show ?thesis
    proof (cases "r = []")
      case True
      with r st show ?thesis by (simp add: stat_simps)
    next
      case False
      then obtain c cs where "r = c # cs" by (cases r) auto
      with r st have a: "stat (store to (Some (File x)) fs) q = None" by (simp add: stat_simps)
      have "stat fs q = None"
      proof (cases "node_at fs to")
        case None
        from None \<open>prefix to q\<close> show ?thesis by (rule stat_None_below)
      next
        case (Some t)
        with assms(6) obtain y where "node_at fs to = Some (File y)"
          by (cases t) (auto simp: isdir_def)
        with \<open>prefix to q\<close> r False show ?thesis by (simp add: stat_File_below)
      qed
      with a r False show ?thesis by simp
    qed
  qed
qed



subsection \<open>The reference backend\<close>

lemma pull_each_header:
  "(kind, name, img) \<in> set refs \<Longrightarrow>
   pull_header kind name img \<in> set (fst (pull_each repository line_reset refs))"
proof (induction refs)
  case Nil
  then show ?case by simp
next
  case (Cons r refs)
  obtain k n i where r: "r = (k, n, i)" by (cases r)
  with Cons show ?case by (auto split: prod.splits option.splits)
qed

lemma pull_each_warning:
  "(kind, name, img) \<in> set refs \<Longrightarrow> repository img = None \<Longrightarrow>
   \<exists>before after. fst (pull_each repository line_reset refs)
      = before @ [pull_header kind name img, image_not_found] @ after"
proof (induction refs)
  case Nil
  then show ?case by simp
next
  case (Cons r refs)
  obtain k n i where r: "r = (k, n, i)" by (cases r)
  obtain ms ims where p: "pull_each repository line_reset refs = (ms, ims)" by (cases "pull_each repository line_reset refs")
  show ?case
  proof (cases "r = (kind, name, img)")
    case True
    with Cons.prems(2) r p have "fst (pull_each repository line_reset (r # refs))
        = [] @ [pull_header kind name img, image_not_found] @ ms"
      by simp
    then show ?thesis by blast
  next
    case False
    with Cons obtain before after where ba: "fst (pull_each repository line_reset refs)
      = before @ [pull_header kind name img, image_not_found] @ after" by auto
    obtain pre where "fst (pull_each repository line_reset (r # refs)) = pre @ ms"
      using r p by (cases "repository i") auto
    with ba p have "fst (pull_each repository line_reset (r # refs))
       = (pre @ before) @ [pull_header kind name img, image_not_found] @ after" by simp
    then show ?thesis by blast
  qed
qed

lemma pull_each_pulled:
  "(kind, name, img) \<in> set refs \<Longrightarrow> repository img \<noteq> None \<Longrightarrow>
   img \<in> set (snd (pull_each repository line_reset refs))"
proof (induction refs)
  case Nil
  then show ?case by simp
next
  case (Cons r refs)
  obtain k n i where r: "r = (k, n, i)" by (cases r)
  with Cons show ?case by (auto split: prod.splits option.splits)
qed

lemma count_list_snoc_other: "k \<noteq> k' \<Longrightarrow> count_list (xs @ [k]) k' = count_list xs k'"
  by (induction xs) auto

lemma count_list_removeAll_other: "k \<noteq> k' \<Longrightarrow> count_list (removeAll k xs) k' = count_list xs k'"
  by (induction xs) auto

lemma start_service_other:
  assumes "n \<noteq> s" and "start_service backend_ok project n st = (q, st')"
  shows "state_of st' (folder project, s) = state_of st (folder project, s)"
    and "count_list (containers st') (folder project, s) = count_list (containers st) (folder project, s)"
    and "filter (\<lambda>r. target r = s) q = []"
  using assms
  by (auto simp: start_service_def Let_def count_list_snoc_other count_list_removeAll_other
      split: lifecycle.splits if_splits)

lemma stop_service_other:
  assumes "n \<noteq> s" and "stop_service backend_ok project n st = (q, st')"
  shows "state_of st' (folder project, s) = state_of st (folder project, s)"
    and "count_list (containers st') (folder project, s) = count_list (containers st) (folder project, s)"
    and "filter (\<lambda>r. target r = s) q = []"
  using assms
  by (auto simp: stop_service_def Let_def count_list_removeAll_other
      split: lifecycle.splits if_splits)

lemma start_all_running:
  "state_of st (folder project, s) = Running \<Longrightarrow>
   for_services (start_service backend_ok project) names st = (q, st') \<Longrightarrow>
   state_of st' (folder project, s) = Running
   \<and> count_list (containers st') (folder project, s) = count_list (containers st) (folder project, s)
   \<and> filter (\<lambda>r. target r = s) q = replicate (count_list names s) \<lparr>target = s, status = Success\<rparr>"
proof (induction names arbitrary: st q st')
  case Nil
  then show ?case by simp
next
  case (Cons n names)
  obtain q1 st1 where one: "start_service backend_ok project n st = (q1, st1)"
    by (cases "start_service backend_ok project n st")
  obtain q2 st2 where rest: "for_services (start_service backend_ok project) names st1 = (q2, st2)"
    by (cases "for_services (start_service backend_ok project) names st1")
  from Cons.prems(2) one rest have q: "q = q1 @ q2" and st': "st' = st2" by simp_all
  show ?case
  proof (cases "n = s")
    case True
    with Cons.prems(1) one have q1: "q1 = [\<lparr>target = s, status = Success\<rparr>]" and st1: "st1 = st"
      by (simp_all add: start_service_def)
    from rest st1 have "for_services (start_service backend_ok project) names st = (q2, st2)" by simp
    from Cons.IH [OF Cons.prems(1) this] q1 q st' True show ?thesis by simp
  next
    case False
    note o = start_service_other [OF False one]
    from o(1) Cons.prems(1) have "state_of st1 (folder project, s) = Running" by simp
    from Cons.IH [OF this rest] o q st' False show ?thesis by simp
  qed
qed

lemma stop_all_stopped:
  "state_of st (folder project, s) = Stopped \<Longrightarrow>
   for_services (stop_service backend_ok project) names st = (q, st') \<Longrightarrow>
   state_of st' (folder project, s) = Stopped
   \<and> count_list (containers st') (folder project, s) = count_list (containers st) (folder project, s)
   \<and> filter (\<lambda>r. target r = s) q = replicate (count_list names s) \<lparr>target = s, status = Success\<rparr>"
proof (induction names arbitrary: st q st')
  case Nil
  then show ?case by simp
next
  case (Cons n names)
  obtain q1 st1 where one: "stop_service backend_ok project n st = (q1, st1)"
    by (cases "stop_service backend_ok project n st")
  obtain q2 st2 where rest: "for_services (stop_service backend_ok project) names st1 = (q2, st2)"
    by (cases "for_services (stop_service backend_ok project) names st1")
  from Cons.prems(2) one rest have q: "q = q1 @ q2" and st': "st' = st2" by simp_all
  show ?case
  proof (cases "n = s")
    case True
    with Cons.prems(1) one have q1: "q1 = [\<lparr>target = s, status = Success\<rparr>]" and st1: "st1 = st"
      by (simp_all add: stop_service_def)
    from rest st1 have "for_services (stop_service backend_ok project) names st = (q2, st2)" by simp
    from Cons.IH [OF Cons.prems(1) this] q1 q st' True show ?thesis by simp
  next
    case False
    note o = stop_service_other [OF False one]
    from o(1) Cons.prems(1) have "state_of st1 (folder project, s) = Stopped" by simp
    from Cons.IH [OF this rest] o q st' False show ?thesis by simp
  qed
qed

section \<open>Properties\<close>

subsection \<open>Boundary enforcement\<close>

text \<open>
  Claim C1. For every path that is neither the project's root directory nor a descendant
  of it, \<open>path_rm\<close> raises \<open>PermissionError\<close>, and so does \<open>path_copy\<close> with such a path as
  its destination, whatever the source; in both cases the filesystem is left exactly as
  it was, since the check comes before any delete or copy.
\<close>

theorem path_guard_rejects_outside:
  assumes "path \<noteq> folder project" and "\<not> strict_prefix (folder project) path"
  shows "path_rm path project fs = (Inl PermissionError, fs)
       \<and> path_copy depth fromm path project fs = (Inl PermissionError, fs)"
proof -
  from assms have "\<not> path_in_project path project"
    by (auto simp: path_in_project_def strict_prefix_def)
  then show ?thesis by (simp add: path_rm_def path_copy_def)
qed

theorem path_guard_rejects_outside_witness:
  "[''etc'', ''hosts''] \<noteq> folder demo_project
   \<and> \<not> strict_prefix (folder demo_project) [''etc'', ''hosts'']
   \<and> path_rm [''etc'', ''hosts''] demo_project demo_fs = (Inl PermissionError, demo_fs)
   \<and> path_copy 100 [''home'', ''dev'', ''proj'', ''riptide.yml''] [''etc'', ''hosts'']
         demo_project demo_fs = (Inl PermissionError, demo_fs)"
proof -
  have a: "[''etc'', ''hosts''] \<noteq> folder demo_project" by (simp add: demo_project_def)
  have b: "\<not> strict_prefix (folder demo_project) [''etc'', ''hosts'']"
    by (simp add: demo_project_def)
  from a b path_guard_rejects_outside [OF a b, of demo_fs 100 "[''home'', ''dev'', ''proj'', ''riptide.yml'']"]
  show ?thesis by simp
qed

subsection \<open>Deleting a path that does not exist\<close>

text \<open>
  Claim C3 says that \<open>path_rm\<close> returns without an exception for a path inside the project
  that does not exist, as the method's docstring does ("Returns without an exception if
  the path was moved (or didn't exist)"). The method does not: \<open>os.path.isfile\<close> is false
  for a missing path, so the path goes to \<open>shutil.rmtree\<close>, which raises
  \<open>FileNotFoundError\<close>; the filesystem is unchanged.
\<close>

theorem path_rm_missing_raises:
  assumes "prefix (folder project) path" and "node_at fs path = None"
  shows "path_rm path project fs = (Inl FileNotFoundError, fs)"
  using assms by (simp add: path_rm_def path_in_project_def isfile_def rmtree_def)

theorem path_rm_missing_raises_witness:
  "prefix (folder demo_project) [''home'', ''dev'', ''proj'', ''missing'']
   \<and> node_at demo_fs [''home'', ''dev'', ''proj'', ''missing''] = None
   \<and> path_rm [''home'', ''dev'', ''proj'', ''missing''] demo_project demo_fs
       = (Inl FileNotFoundError, demo_fs)"
proof -
  have a: "prefix (folder demo_project) [''home'', ''dev'', ''proj'', ''missing'']"
    by (simp add: demo_project_def)
  have b: "node_at demo_fs [''home'', ''dev'', ''proj'', ''missing''] = None"
    by (simp add: demo_fs_def)
  from a b path_rm_missing_raises [OF a b] show ?thesis by simp
qed

subsection \<open>The exception class and the host name\<close>

text \<open>
  Claim C8. \<open>ExecError\<close> derives from \<open>BaseException\<close> directly and is no subclass of
  \<open>Exception\<close>: a handler \<^verbatim>\<open>except Exception\<close> lets a raised \<open>ExecError\<close> propagate, and
  only a handler for \<open>BaseException\<close> catches it.
\<close>

theorem exec_error_escapes_except_Exception:
  "base ExecError = Some BaseException
   \<and> issubclass ExecError BaseException
   \<and> \<not> issubclass ExecError Exception
   \<and> try_except (Inl ExecError) Exception handler = Inl ExecError
   \<and> try_except (Inl ExecError) BaseException handler = handler ExecError"
  by (simp add: issubclass_def try_except_def)

text \<open>
  Claim C10. The host name under which an engine has to make the host reachable is the
  module-level constant \<open>RIPTIDE_HOST_HOSTNAME\<close>, a literal with the value
  \<open>host.riptide.internal\<close>; it depends on no configuration.
\<close>

theorem host_hostname_is_literal:
  "RIPTIDE_HOST_HOSTNAME = ''host.riptide.internal''"
  by (simp add: RIPTIDE_HOST_HOSTNAME_def)

subsection \<open>The guard of \<open>path_copy\<close> reads the destination only\<close>









subsection \<open>Deleting and copying inside the project\<close>





subsection \<open>A destination that already exists\<close>

text \<open>
  Claim C4 (as amended). \<open>path_copy\<close> makes no test of whether \<open>to\<close> exists. When \<open>to\<close>
  does not exist, every path that existed before the call keeps its kind and content,
  whether the call succeeds or raises. When \<open>to\<close> is an existing regular file and the
  source is another regular file, the call succeeds and \<open>to\<close> holds the source's content:
  the file is overwritten without an exception.
\<close>

theorem path_copy_does_not_check_destination:
  assumes "prefix (folder project) to"
  shows "(node_at fs to = None \<longrightarrow>
            (\<forall>q e. stat fs q = Some e \<longrightarrow>
                   stat (snd (path_copy depth fromm to project fs)) q = Some e))
       \<and> (\<forall>x y. node_at fs fromm = Some (File x) \<and> node_at fs to = Some (File y) \<and> fromm \<noteq> to \<longrightarrow>
            path_copy depth fromm to project fs = (Inr (), store to (Some (File x)) fs)
          \<and> stat (store to (Some (File x)) fs) to = Some (RegularFile x))"
proof (intro conjI allI impI)
  fix q e
  assume absent: "node_at fs to = None" and q: "stat fs q = Some e"
  have np: "\<not> prefix to q"
  proof
    assume "prefix to q"
    with absent have "stat fs q = None" by (rule stat_None_below)
    with q show False by simp
  qed
  show "stat (snd (path_copy depth fromm to project fs)) q = Some e"
  proof (cases "isfile fs fromm")
    case True
    with assms np q show ?thesis
      by (simp add: path_copy_def path_in_project_def copy2_keeps)
  next
    case False
    with assms np q show ?thesis
      by (simp add: path_copy_def path_in_project_def copy_tree_keeps)
  qed
next
  fix x y
  assume a: "node_at fs fromm = Some (File x) \<and> node_at fs to = Some (File y) \<and> fromm \<noteq> to"
  then have a1: "node_at fs fromm = Some (File x)" and a2: "node_at fs to = Some (File y)"
    and a3: "fromm \<noteq> to" by simp_all
  have a4: "to \<noteq> []"
  proof
    assume "to = []"
    with a2 have "fs = File y" by simp
    with a1 have "fromm = []" by (cases fromm) simp_all
    with \<open>to = []\<close> a3 show False by simp
  qed
  from a2 a4 have a5: "isdir fs (dirname to)" unfolding dirname_def by (rule parent_isdir)
  from a2 have a6: "\<not> isdir fs to" by (simp add: isdir_def)
  from path_copy_file(1) [OF assms a1 a3 a4 a5 a6]
  show "path_copy depth fromm to project fs = (Inr (), store to (Some (File x)) fs)" .
  from path_copy_file(2) [OF assms a1 a3 a4 a5 a6, of to]
  show "stat (store to (Some (File x)) fs) to = Some (RegularFile x)" by simp
qed


theorem path_copy_does_not_check_destination_witness:
  "prefix (folder demo_project) [''home'', ''dev'', ''proj'', ''copy'']
   \<and> node_at demo_fs [''home'', ''dev'', ''proj'', ''copy''] = None
   \<and> stat demo_fs [''home'', ''dev'', ''proj'', ''riptide.yml''] = Some (RegularFile ''project: demo'')
   \<and> stat (snd (path_copy 100 [''home'', ''dev'', ''proj'', ''src''] [''home'', ''dev'', ''proj'', ''copy'']
                  demo_project demo_fs))
        [''home'', ''dev'', ''proj'', ''riptide.yml''] = Some (RegularFile ''project: demo'')
   \<and> prefix (folder demo_project) [''home'', ''dev'', ''proj'', ''riptide.yml'']
   \<and> node_at demo_fs [''etc'', ''hosts''] = Some (File ''127.0.0.1 localhost'')
   \<and> node_at demo_fs [''home'', ''dev'', ''proj'', ''riptide.yml''] = Some (File ''project: demo'')
   \<and> [''etc'', ''hosts''] \<noteq> [''home'', ''dev'', ''proj'', ''riptide.yml'']
   \<and> path_copy 100 [''etc'', ''hosts''] [''home'', ''dev'', ''proj'', ''riptide.yml''] demo_project demo_fs
       = (Inr (), store [''home'', ''dev'', ''proj'', ''riptide.yml'']
                    (Some (File ''127.0.0.1 localhost'')) demo_fs)
   \<and> stat (store [''home'', ''dev'', ''proj'', ''riptide.yml''] (Some (File ''127.0.0.1 localhost'')) demo_fs)
        [''home'', ''dev'', ''proj'', ''riptide.yml''] = Some (RegularFile ''127.0.0.1 localhost'')"
proof -
  have a: "prefix (folder demo_project) [''home'', ''dev'', ''proj'', ''copy'']"
    by (simp add: demo_project_def)
  have a1: "node_at demo_fs [''home'', ''dev'', ''proj'', ''copy''] = None"
    by (simp add: demo_fs_def)
  have a2: "stat demo_fs [''home'', ''dev'', ''proj'', ''riptide.yml''] = Some (RegularFile ''project: demo'')"
    by (simp add: demo_fs_def stat_def)
  have b: "prefix (folder demo_project) [''home'', ''dev'', ''proj'', ''riptide.yml'']"
    by (simp add: demo_project_def)
  have b1: "node_at demo_fs [''etc'', ''hosts''] = Some (File ''127.0.0.1 localhost'')"
    by (simp add: demo_fs_def)
  have b2: "node_at demo_fs [''home'', ''dev'', ''proj'', ''riptide.yml''] = Some (File ''project: demo'')"
    by (simp add: demo_fs_def)
  have b3: "[''etc'', ''hosts''] \<noteq> [''home'', ''dev'', ''proj'', ''riptide.yml'']" by simp
  from path_copy_does_not_check_destination
         [OF a, of demo_fs 100 "[''home'', ''dev'', ''proj'', ''src'']"] a1 a2
  have A: "stat (snd (path_copy 100 [''home'', ''dev'', ''proj'', ''src''] [''home'', ''dev'', ''proj'', ''copy'']
                  demo_project demo_fs))
        [''home'', ''dev'', ''proj'', ''riptide.yml''] = Some (RegularFile ''project: demo'')"
    by blast
  from path_copy_does_not_check_destination
         [OF b, of demo_fs 100 "[''etc'', ''hosts'']"] b1 b2 b3
  have B: "path_copy 100 [''etc'', ''hosts''] [''home'', ''dev'', ''proj'', ''riptide.yml''] demo_project demo_fs
       = (Inr (), store [''home'', ''dev'', ''proj'', ''riptide.yml'']
                    (Some (File ''127.0.0.1 localhost'')) demo_fs)
   \<and> stat (store [''home'', ''dev'', ''proj'', ''riptide.yml''] (Some (File ''127.0.0.1 localhost'')) demo_fs)
        [''home'', ''dev'', ''proj'', ''riptide.yml''] = Some (RegularFile ''127.0.0.1 localhost'')"
    by blast
  from a a1 a2 A b b1 b2 b3 B show ?thesis by blast
qed

text \<open>
  The claim as stated fails on an existing destination: a regular file is overwritten,
  and a directory is merged into, its file of the same name replaced and its other file
  kept; both calls return normally.
\<close>

theorem path_copy_overwrites_counterexample:
  "prefix (folder demo_project) [''home'', ''dev'', ''proj'', ''riptide.yml'']
   \<and> stat demo_fs [''home'', ''dev'', ''proj'', ''riptide.yml''] = Some (RegularFile ''project: demo'')
   \<and> fst (path_copy 100 [''etc'', ''hosts''] [''home'', ''dev'', ''proj'', ''riptide.yml'']
            demo_project demo_fs) = Inr ()
   \<and> stat (snd (path_copy 100 [''etc'', ''hosts''] [''home'', ''dev'', ''proj'', ''riptide.yml'']
                  demo_project demo_fs))
        [''home'', ''dev'', ''proj'', ''riptide.yml''] = Some (RegularFile ''127.0.0.1 localhost'')
   \<and> prefix (folder demo_project) [''home'', ''dev'', ''proj'', ''backup'']
   \<and> stat demo_fs [''home'', ''dev'', ''proj'', ''backup'', ''index.html''] = Some (RegularFile ''hello old'')
   \<and> fst (path_copy 100 [''home'', ''dev'', ''proj'', ''src''] [''home'', ''dev'', ''proj'', ''backup'']
            demo_project demo_fs) = Inr ()
   \<and> stat (snd (path_copy 100 [''home'', ''dev'', ''proj'', ''src''] [''home'', ''dev'', ''proj'', ''backup'']
                  demo_project demo_fs))
        [''home'', ''dev'', ''proj'', ''backup'', ''index.html''] = Some (RegularFile ''hello src'')
   \<and> stat (snd (path_copy 100 [''home'', ''dev'', ''proj'', ''src''] [''home'', ''dev'', ''proj'', ''backup'']
                  demo_project demo_fs))
        [''home'', ''dev'', ''proj'', ''backup'', ''notes.txt''] = Some (RegularFile ''keep me'')"
  by code_simp

subsection \<open>Commands in a service that is not running\<close>




subsection \<open>Pulling images\<close>

text \<open>
  Claim C6. \<open>pull_images\<close> does not raise, whatever images the remote repository lacks:
  it returns normally, having gone through every image that the project's services and
  commands refer to. Each reference has its header among the lines sent to the callback;
  for a missing image the warning line follows the header directly; every image that the
  repository has is present locally afterwards.
\<close>

theorem pull_images_reports_missing_images:
  "fst (pull_images repository st project line_reset update_func u) = Inr ()
   \<and> snd (snd (pull_images repository st project line_reset update_func u))
       = fold update_func (pull_messages repository line_reset project) u
   \<and> (\<forall>(kind, name, img) \<in> set (image_refs project).
         pull_header kind name img \<in> set (pull_messages repository line_reset project)
       \<and> (repository img = None \<longrightarrow>
            (\<exists>before after. pull_messages repository line_reset project
               = before @ [pull_header kind name img, image_not_found] @ after))
       \<and> (repository img \<noteq> None \<longrightarrow>
            img \<in> set (images (fst (snd (pull_images repository st project line_reset update_func u))))))"
proof (intro conjI)
  show "fst (pull_images repository st project line_reset update_func u) = Inr ()"
    by (simp add: pull_images_def)
  show "snd (snd (pull_images repository st project line_reset update_func u))
       = fold update_func (pull_messages repository line_reset project) u"
    by (simp add: pull_images_def)
  show "\<forall>(kind, name, img) \<in> set (image_refs project).
         pull_header kind name img \<in> set (pull_messages repository line_reset project)
       \<and> (repository img = None \<longrightarrow>
            (\<exists>before after. pull_messages repository line_reset project
               = before @ [pull_header kind name img, image_not_found] @ after))
       \<and> (repository img \<noteq> None \<longrightarrow>
            img \<in> set (images (fst (snd (pull_images repository st project line_reset update_func u)))))"
  proof (intro ballI)
    fix r
    assume r: "r \<in> set (image_refs project)"
    obtain kind name img where eq: "r = (kind, name, img)" by (cases r)
    with r have m: "(kind, name, img) \<in> set (image_refs project)" by simp
    from m have a: "pull_header kind name img \<in> set (pull_messages repository line_reset project)"
      by (simp add: pull_messages_def pull_each_header)
    have b: "\<exists>before after. pull_messages repository line_reset project
               = before @ [pull_header kind name img, image_not_found] @ after"
      if "repository img = None"
    proof -
      from m that obtain before after where
        "fst (pull_each repository line_reset (image_refs project))
           = before @ [pull_header kind name img, image_not_found] @ after"
        using pull_each_warning by blast
      then have "pull_messages repository line_reset project
           = before @ [pull_header kind name img, image_not_found]
               @ (after @ [[CHR 0x0A] @ ''Done.'' @ [CHR 0x0A]])"
        by (simp add: pull_messages_def)
      then show ?thesis by blast
    qed
    have c: "img \<in> set (images (fst (snd (pull_images repository st project line_reset update_func u))))"
      if "repository img \<noteq> None"
      using m that by (simp add: pull_images_def pull_each_pulled)
    from a b c eq
    show "case r of (kind, name, img) \<Rightarrow>
         pull_header kind name img \<in> set (pull_messages repository line_reset project)
       \<and> (repository img = None \<longrightarrow>
            (\<exists>before after. pull_messages repository line_reset project
               = before @ [pull_header kind name img, image_not_found] @ after))
       \<and> (repository img \<noteq> None \<longrightarrow>
            img \<in> set (images (fst (snd (pull_images repository st project line_reset update_func u)))))"
      by simp
  qed
qed

theorem pull_images_reports_missing_images_witness:
  "(''service'', ''db'', ''mysql'') \<in> set (image_refs demo_project)
   \<and> demo_repository ''mysql'' = None
   \<and> (''service'', ''web'', ''nginx'') \<in> set (image_refs demo_project)
   \<and> demo_repository ''nginx'' \<noteq> None
   \<and> fst (pull_images demo_repository demo_engine demo_project [CHR 0x0D] (\<lambda>m log. log @ [m]) []) = Inr ()
   \<and> (\<exists>before after. pull_messages demo_repository [CHR 0x0D] demo_project
         = before @ [pull_header ''service'' ''db'' ''mysql'', image_not_found] @ after)
   \<and> pull_header ''service'' ''web'' ''nginx'' \<in> set (pull_messages demo_repository [CHR 0x0D] demo_project)
   \<and> ''nginx'' \<in> set (images (fst (snd (pull_images demo_repository demo_engine demo_project
                                        [CHR 0x0D] (\<lambda>m log. log @ [m]) []))))"
proof -
  have a: "(''service'', ''db'', ''mysql'') \<in> set (image_refs demo_project)"
    by (simp add: image_refs_def demo_project_def)
  have b: "demo_repository ''mysql'' = None" by (simp add: demo_repository_def)
  have c: "(''service'', ''web'', ''nginx'') \<in> set (image_refs demo_project)"
    by (simp add: image_refs_def demo_project_def)
  have d: "demo_repository ''nginx'' \<noteq> None" by (simp add: demo_repository_def)
  note T = pull_images_reports_missing_images
             [of demo_repository demo_engine demo_project "[CHR 0x0D]" "\<lambda>m log. log @ [m]" "[]"]
  from T have e: "fst (pull_images demo_repository demo_engine demo_project [CHR 0x0D]
                         (\<lambda>m log. log @ [m]) []) = Inr ()"
    by blast
  from T have every: "\<forall>(kind, name, img) \<in> set (image_refs demo_project).
         pull_header kind name img \<in> set (pull_messages demo_repository [CHR 0x0D] demo_project)
       \<and> (demo_repository img = None \<longrightarrow>
            (\<exists>before after. pull_messages demo_repository [CHR 0x0D] demo_project
               = before @ [pull_header kind name img, image_not_found] @ after))
       \<and> (demo_repository img \<noteq> None \<longrightarrow>
            img \<in> set (images (fst (snd (pull_images demo_repository demo_engine demo_project
                                          [CHR 0x0D] (\<lambda>m log. log @ [m]) [])))))"
    by (elim conjE)
  from bspec [OF every a] b
  have f: "\<exists>before after. pull_messages demo_repository [CHR 0x0D] demo_project
         = before @ [pull_header ''service'' ''db'' ''mysql'', image_not_found] @ after"
    by simp
  from bspec [OF every c] d
  have g: "pull_header ''service'' ''web'' ''nginx''
        \<in> set (pull_messages demo_repository [CHR 0x0D] demo_project)
     \<and> ''nginx'' \<in> set (images (fst (snd (pull_images demo_repository demo_engine demo_project
                                        [CHR 0x0D] (\<lambda>m log. log @ [m]) []))))"
    by simp
  from a b c d e f g show ?thesis by blast
qed

subsection \<open>Idempotent start and stop\<close>

text \<open>
  Claim C7. Starting a service that is already \<open>Running\<close> leaves it \<open>Running\<close>, leaves the
  number of its containers as it was, and puts one terminal success and nothing else for
  it into the queue, once per time it is named; stopping a service that is already
  \<open>Stopped\<close> does the same and leaves it \<open>Stopped\<close>. Called for that service alone, the
  operation returns the single success and the engine state unchanged, so a second call
  does the same again.
\<close>

theorem start_stop_idempotent:
  assumes "set names \<subseteq> fst ` set (services project)"
  shows "(state_of st (folder project, s) = Running \<longrightarrow>
           (\<exists>q st'. start_project backend_ok project names unsynced st = (Inr q, st')
              \<and> state_of st' (folder project, s) = Running
              \<and> count_list (containers st') (folder project, s)
                  = count_list (containers st) (folder project, s)
              \<and> filter (\<lambda>r. target r = s) q
                  = replicate (count_list names s) \<lparr>target = s, status = Success\<rparr>))
       \<and> (state_of st (folder project, s) = Stopped \<longrightarrow>
           (\<exists>q st'. stop_project backend_ok project names st = (Inr q, st')
              \<and> state_of st' (folder project, s) = Stopped
              \<and> count_list (containers st') (folder project, s)
                  = count_list (containers st) (folder project, s)
              \<and> filter (\<lambda>r. target r = s) q
                  = replicate (count_list names s) \<lparr>target = s, status = Success\<rparr>))
       \<and> (names = [s] \<and> state_of st (folder project, s) = Running \<longrightarrow>
            start_project backend_ok project names unsynced st
              = (Inr [\<lparr>target = s, status = Success\<rparr>], st))
       \<and> (names = [s] \<and> state_of st (folder project, s) = Stopped \<longrightarrow>
            stop_project backend_ok project names st
              = (Inr [\<lparr>target = s, status = Success\<rparr>], st))"
proof (intro conjI impI)
  assume run: "state_of st (folder project, s) = Running"
  obtain q st' where r: "for_services (start_service backend_ok project) names st = (q, st')"
    by (cases "for_services (start_service backend_ok project) names st")
  with assms have "start_project backend_ok project names unsynced st = (Inr q, st')"
    by (simp add: start_project_def)
  with start_all_running [OF run r]
  show "\<exists>q st'. start_project backend_ok project names unsynced st = (Inr q, st')
              \<and> state_of st' (folder project, s) = Running
              \<and> count_list (containers st') (folder project, s)
                  = count_list (containers st) (folder project, s)
              \<and> filter (\<lambda>r. target r = s) q
                  = replicate (count_list names s) \<lparr>target = s, status = Success\<rparr>"
    by blast
next
  assume stp: "state_of st (folder project, s) = Stopped"
  obtain q st' where r: "for_services (stop_service backend_ok project) names st = (q, st')"
    by (cases "for_services (stop_service backend_ok project) names st")
  with assms have "stop_project backend_ok project names st = (Inr q, st')"
    by (simp add: stop_project_def)
  with stop_all_stopped [OF stp r]
  show "\<exists>q st'. stop_project backend_ok project names st = (Inr q, st')
              \<and> state_of st' (folder project, s) = Stopped
              \<and> count_list (containers st') (folder project, s)
                  = count_list (containers st) (folder project, s)
              \<and> filter (\<lambda>r. target r = s) q
                  = replicate (count_list names s) \<lparr>target = s, status = Success\<rparr>"
    by blast
next
  assume "names = [s] \<and> state_of st (folder project, s) = Running"
  with assms show "start_project backend_ok project names unsynced st
              = (Inr [\<lparr>target = s, status = Success\<rparr>], st)"
    by (simp add: start_project_def start_service_def)
next
  assume "names = [s] \<and> state_of st (folder project, s) = Stopped"
  with assms show "stop_project backend_ok project names st
              = (Inr [\<lparr>target = s, status = Success\<rparr>], st)"
    by (simp add: stop_project_def stop_service_def)
qed

theorem start_stop_idempotent_witness:
  "set [''web''] \<subseteq> fst ` set (services demo_project)
   \<and> state_of demo_engine (folder demo_project, ''web'') = Running
   \<and> start_project (\<lambda>s. True) demo_project [''web''] False demo_engine
       = (Inr [\<lparr>target = ''web'', status = Success\<rparr>], demo_engine)
   \<and> set [''db''] \<subseteq> fst ` set (services demo_project)
   \<and> state_of demo_engine (folder demo_project, ''db'') = Stopped
   \<and> stop_project (\<lambda>s. True) demo_project [''db''] demo_engine
       = (Inr [\<lparr>target = ''db'', status = Success\<rparr>], demo_engine)
   \<and> set [''db'', ''web''] \<subseteq> fst ` set (services demo_project)
   \<and> (\<exists>q st'. start_project (\<lambda>s. True) demo_project [''db'', ''web''] False demo_engine = (Inr q, st')
         \<and> state_of st' (folder demo_project, ''web'') = Running
         \<and> count_list (containers st') (folder demo_project, ''web'')
             = count_list (containers demo_engine) (folder demo_project, ''web'')
         \<and> filter (\<lambda>r. target r = ''web'') q
             = replicate (count_list [''db'', ''web''] ''web'') \<lparr>target = ''web'', status = Success\<rparr>)
   \<and> (\<exists>q st'. stop_project (\<lambda>s. True) demo_project [''db'', ''web''] demo_engine = (Inr q, st')
         \<and> state_of st' (folder demo_project, ''db'') = Stopped
         \<and> count_list (containers st') (folder demo_project, ''db'')
             = count_list (containers demo_engine) (folder demo_project, ''db'')
         \<and> filter (\<lambda>r. target r = ''db'') q
             = replicate (count_list [''db'', ''web''] ''db'') \<lparr>target = ''db'', status = Success\<rparr>)"
proof -
  have a: "set [''web''] \<subseteq> fst ` set (services demo_project)" by (simp add: demo_project_def)
  have b: "set [''db''] \<subseteq> fst ` set (services demo_project)" by (simp add: demo_project_def)
  have c: "set [''db'', ''web''] \<subseteq> fst ` set (services demo_project)" by (simp add: demo_project_def)
  have w: "state_of demo_engine (folder demo_project, ''web'') = Running"
    by (simp add: demo_engine_def demo_project_def)
  have d: "state_of demo_engine (folder demo_project, ''db'') = Stopped"
    by (simp add: demo_engine_def demo_project_def)
  from start_stop_idempotent [OF a, of demo_engine "''web''" "\<lambda>s. True" False] w
  have A: "start_project (\<lambda>s. True) demo_project [''web''] False demo_engine
       = (Inr [\<lparr>target = ''web'', status = Success\<rparr>], demo_engine)" by blast
  from start_stop_idempotent [OF b, of demo_engine "''db''" "\<lambda>s. True" False] d
  have B: "stop_project (\<lambda>s. True) demo_project [''db''] demo_engine
       = (Inr [\<lparr>target = ''db'', status = Success\<rparr>], demo_engine)" by blast
  from start_stop_idempotent [OF c, of demo_engine "''web''" "\<lambda>s. True" False] w
  have C: "\<exists>q st'. start_project (\<lambda>s. True) demo_project [''db'', ''web''] False demo_engine = (Inr q, st')
         \<and> state_of st' (folder demo_project, ''web'') = Running
         \<and> count_list (containers st') (folder demo_project, ''web'')
             = count_list (containers demo_engine) (folder demo_project, ''web'')
         \<and> filter (\<lambda>r. target r = ''web'') q
             = replicate (count_list [''db'', ''web''] ''web'') \<lparr>target = ''web'', status = Success\<rparr>"
    by blast
  from start_stop_idempotent [OF c, of demo_engine "''db''" "\<lambda>s. True" False] d
  have D: "\<exists>q st'. stop_project (\<lambda>s. True) demo_project [''db'', ''web''] demo_engine = (Inr q, st')
         \<and> state_of st' (folder demo_project, ''db'') = Stopped
         \<and> count_list (containers st') (folder demo_project, ''db'')
             = count_list (containers demo_engine) (folder demo_project, ''db'')
         \<and> filter (\<lambda>r. target r = ''db'') q
             = replicate (count_list [''db'', ''web''] ''db'') \<lparr>target = ''db'', status = Success\<rparr>"
    by blast
  from a b c w d A B C D show ?thesis by blast
qed

end
